theory Spec2Isabelle
  imports Complex_Main "HOL-Library.Multiset"
begin

section \<open>Strings of the host language\<close>

text \<open>
  The hook \<open>useKeywordAnalysis\<close> works on JavaScript strings. A string is modelled as a
  list of code units below 256 (the Latin-1 range), one \<open>char\<close> per code unit, so
  \<open>length\<close> is the \<open>.length\<close> of the source. The library calls the source relies on
  are written out for that range: \<open>toLowerCase\<close>, \<open>trim\<close>, \<open>includes\<close>, \<open>split(/\s+/)\<close>,
  \<open>join(" ")\<close>, and the character classes \<open>\s\<close> and \<open>\w\<close> of regular expressions.
\<close>

definition isWhiteSpace :: "char \<Rightarrow> bool" where
  \<comment> \<open>WhiteSpace and LineTerminator: TAB, LF, VT, FF, CR, SP, NBSP.\<close>
  "isWhiteSpace c = ((of_char c :: nat) \<in> {9, 10, 11, 12, 13, 32, 160})"

definition toLowerCaseChar :: "char \<Rightarrow> char" where
  \<comment> \<open>A-Z and the accented capitals 0xC0-0xDE (0xD7 is the multiplication sign).\<close>
  "toLowerCaseChar c =
     (let n = (of_char c :: nat)
      in if (65 \<le> n \<and> n \<le> 90) \<or> (192 \<le> n \<and> n \<le> 222 \<and> n \<noteq> 215)
         then char_of (n + 32) else c)"

definition toLowerCase :: "string \<Rightarrow> string" where
  "toLowerCase s = map toLowerCaseChar s"

definition trim :: "string \<Rightarrow> string" where
  "trim s = rev (dropWhile isWhiteSpace (rev (dropWhile isWhiteSpace s)))"

fun startsWith :: "string \<Rightarrow> string \<Rightarrow> bool" where
  "startsWith s [] = True"
| "startsWith [] (t # ts) = False"
| "startsWith (c # cs) (t # ts) = (c = t \<and> startsWith cs ts)"

fun includesStr :: "string \<Rightarrow> string \<Rightarrow> bool" where
  \<comment> \<open>\<open>s.includes(t)\<close>: \<open>t\<close> occurs in \<open>s\<close> as a contiguous substring.\<close>
  "includesStr [] t = (t = [])"
| "includesStr (c # cs) t = (startsWith (c # cs) t \<or> includesStr cs t)"

function splitFrom :: "string \<Rightarrow> string \<Rightarrow> string list" where
  \<comment> \<open>\<open>splitFrom cur s\<close>: the pieces of \<open>s\<close>, \<open>cur\<close> being the piece read so far.\<close>
  "splitFrom cur [] = [cur]"
| "splitFrom cur (c # cs) =
     (if isWhiteSpace c then cur # splitFrom [] (dropWhile isWhiteSpace cs)
      else splitFrom (cur @ [c]) cs)"
  by pat_completeness auto
termination
  by (relation "measure (\<lambda>(cur, s). length s)")
     (auto simp: less_Suc_eq_le length_dropWhile_le)

definition splitWhitespace :: "string \<Rightarrow> string list" where
  \<comment> \<open>\<open>s.split(/\s+/)\<close>: every maximal run of white space separates two pieces, so a
      leading or trailing run yields an empty first or last piece.\<close>
  "splitWhitespace s = splitFrom [] s"

fun joinSpace :: "string list \<Rightarrow> string" where
  \<comment> \<open>\<open>ws.join(" ")\<close>\<close>
  "joinSpace [] = []"
| "joinSpace [w] = w"
| "joinSpace (w # v # ws) = w @ CHR '' '' # joinSpace (v # ws)"

section \<open>Regular expressions built from an escaped keyword\<close>

text \<open>
  Both functions build a pattern from \<open>lowerKeyword.replace(/[-\/\\^$*+?.()|[\]{}]/g, '\\$&')\<close>
  and compile it with the flag \<open>i\<close>. \<open>escapeRegExp\<close> is that replacement.
  \<open>parseLiteral\<close> reads a pattern source made of ordinary characters and escaped
  punctuation back into the literal it denotes; any other source (an unescaped syntax
  character, a dangling backslash, a backslash before a letter) is outside this fragment
  and is answered with \<open>None\<close>, which \<open>newRegExp\<close> reports as the constructor's
  \<open>SyntaxError\<close>.
\<close>

datatype error = TypeError | SyntaxError

definition backslash :: char where
  "backslash = CHR 0x5C"

definition escapedChars :: "char list" where
  \<comment> \<open>the character class of the \<open>replace\<close> call\<close>
  "escapedChars = ''-/'' @ [backslash] @ ''^$*+?.()|[]{}''"

definition syntaxChars :: "char list" where
  \<comment> \<open>the characters with a meaning of their own in a pattern\<close>
  "syntaxChars = [backslash] @ ''^$*+?.()|[]{}''"

fun escapeRegExp :: "string \<Rightarrow> string" where
  "escapeRegExp [] = []"
| "escapeRegExp (c # cs) =
     (if c \<in> set escapedChars then backslash # c # escapeRegExp cs
      else c # escapeRegExp cs)"

fun parseLiteral :: "string \<Rightarrow> string option" where
  "parseLiteral [] = Some []"
| "parseLiteral [c] = (if c \<in> set syntaxChars then None else Some [c])"
| "parseLiteral (c # d # ds) =
     (if c = backslash
      then (if d \<in> set escapedChars then map_option ((#) d) (parseLiteral ds) else None)
      else if c \<in> set syntaxChars then None
      else map_option ((#) c) (parseLiteral (d # ds)))"

definition newRegExp :: "string \<Rightarrow> error + string" where
  "newRegExp source =
     (case parseLiteral source of None \<Rightarrow> Inl SyntaxError | Some lit \<Rightarrow> Inr lit)"

definition canonicalize :: "char \<Rightarrow> nat" where
  \<comment> \<open>Canonicalize of the flag \<open>i\<close> (no flag \<open>u\<close>): the upper-case code unit when there
      is a single one; 0xB5 and 0xFF have theirs outside Latin-1 (0x39C, 0x178), and
      0xDF upper-cases to two units, so it stays.\<close>
  "canonicalize c =
     (let n = (of_char c :: nat)
      in if (97 \<le> n \<and> n \<le> 122) \<or> (224 \<le> n \<and> n \<le> 254 \<and> n \<noteq> 247) then n - 32
         else if n = 181 then 924
         else if n = 255 then 376
         else n)"

fun matchesHere :: "string \<Rightarrow> string \<Rightarrow> bool" where
  \<comment> \<open>the literal, read with the flag \<open>i\<close>, matches at the head of the input\<close>
  "matchesHere [] s = True"
| "matchesHere (k # ks) [] = False"
| "matchesHere (k # ks) (c # cs) = (canonicalize k = canonicalize c \<and> matchesHere ks cs)"

definition isWordChar :: "char \<Rightarrow> bool" where
  \<comment> \<open>\<open>\w\<close>: letters, digits and the underscore\<close>
  "isWordChar c =
     (let n = (of_char c :: nat)
      in (48 \<le> n \<and> n \<le> 57) \<or> (65 \<le> n \<and> n \<le> 90) \<or> n = 95 \<or> (97 \<le> n \<and> n \<le> 122))"

definition isDelimiter :: "char \<Rightarrow> bool" where
  \<comment> \<open>\<open>\s|[,.;!?]\<close>\<close>
  "isDelimiter c = (isWhiteSpace c \<or> c \<in> set '',.;!?'')"

definition headIsWord :: "string \<Rightarrow> bool" where
  "headIsWord s = (case s of [] \<Rightarrow> False | c # _ \<Rightarrow> isWordChar c)"

definition wordMatchHere :: "string \<Rightarrow> bool \<Rightarrow> string \<Rightarrow> bool" where
  \<comment> \<open>\<open>\b lit \b\<close> at the head of \<open>s\<close>; \<open>prevWord\<close> tells whether the character before
      the head is a word character (\<open>False\<close> at the start of the input).\<close>
  "wordMatchHere lit prevWord s =
     (prevWord \<noteq> headIsWord s \<and> matchesHere lit s \<and>
      (if lit = [] then prevWord else isWordChar (last (take (length lit) s)))
         \<noteq> headIsWord (drop (length lit) s))"

fun wordSearch :: "string \<Rightarrow> bool \<Rightarrow> string \<Rightarrow> bool" where
  "wordSearch lit prevWord [] = wordMatchHere lit prevWord []"
| "wordSearch lit prevWord (c # cs) =
     (wordMatchHere lit prevWord (c # cs) \<or> wordSearch lit (isWordChar c) cs)"

definition wordBoundaryTest :: "string \<Rightarrow> string \<Rightarrow> bool" where
  \<comment> \<open>\<open>new RegExp(`\\b${lit}\\b`, 'i').test(s)\<close>\<close>
  "wordBoundaryTest lit s = wordSearch lit False s"

definition delimitedHere :: "string \<Rightarrow> bool \<Rightarrow> string \<Rightarrow> bool" where
  \<comment> \<open>\<open>lit\<close> at the head of \<open>s\<close>, after the start of the input or a delimiter
      (\<open>leftOk\<close>) and before the end of the input or a delimiter.\<close>
  "delimitedHere lit leftOk s =
     (leftOk \<and> matchesHere lit s \<and>
      (case drop (length lit) s of [] \<Rightarrow> True | c # _ \<Rightarrow> isDelimiter c))"

fun delimitedSearch :: "string \<Rightarrow> bool \<Rightarrow> string \<Rightarrow> bool" where
  "delimitedSearch lit leftOk [] = delimitedHere lit leftOk []"
| "delimitedSearch lit leftOk (c # cs) =
     (delimitedHere lit leftOk (c # cs) \<or> delimitedSearch lit (isDelimiter c) cs)"

definition delimitedTest :: "string \<Rightarrow> string \<Rightarrow> bool" where
  \<comment> \<open>\<open>new RegExp(`(^|\\s|[,.;!?])${lit}($|\\s|[,.;!?])`, 'i').test(s)\<close>\<close>
  "delimitedTest lit s = delimitedSearch lit True s"

section \<open>Analysis results\<close>

text \<open>
  The result object of an analysis run, reduced to the three fields the hook reads or
  writes; the other fields are copied unchanged by \<open>{ ...results }\<close> and never read. A
  field that may be missing on the object is an \<open>option\<close>. Relevance and confidence are
  the decimal fractions of the source, as exact rationals: the relevance values that occur
  (0.95, 0.8 and 0.7 - 0.1 * j for j from 1 to 3) compare as the numbers the source
  computes do.
\<close>

record keywordEntry =
  kw_text :: string
  kw_relevance :: rat
  kw_count :: nat

record entity =
  en_type :: string
  en_text :: string
  en_relevance :: rat
  en_confidence :: rat
  en_count :: nat

record results =
  optimizedText :: "string option"
  keywordEntries :: "keywordEntry list option"  \<comment> \<open>the field \<open>keywords\<close>\<close>
  entities :: "entity list option"

datatype KeywordStatus = Exact | Partial | Relevant | Missing

text \<open>
  The three predicates imported from \<open>utils/keywordUtils\<close> are parameters of the model.
\<close>

record keywordUtils =
  isExactKeywordMatch :: "string \<Rightarrow> string \<Rightarrow> bool"
  isPartialKeywordMatch :: "string \<Rightarrow> string \<Rightarrow> bool"
  isKeywordInTopPositions :: "string \<Rightarrow> keywordEntry list \<Rightarrow> nat \<Rightarrow> bool"

section \<open>checkKeywordStatus\<close>

definition domainToken :: string where
  "domainToken = ''bras''"

definition entityMatch :: "string \<Rightarrow> entity list \<Rightarrow> bool" where
  "entityMatch lowerKeyword es =
     list_ex (\<lambda>e. includesStr (toLowerCase (en_text e)) lowerKeyword \<or>
                   includesStr lowerKeyword (toLowerCase (en_text e))) es"

definition substringMatch :: "string \<Rightarrow> keywordEntry list \<Rightarrow> bool" where
  "substringMatch lowerKeyword ks =
     list_ex (\<lambda>k. includesStr (trim (toLowerCase (kw_text k))) lowerKeyword \<or>
                   includesStr lowerKeyword (trim (toLowerCase (kw_text k)))) ks"

definition structuredStatus ::
  "keywordUtils \<Rightarrow> string \<Rightarrow> string \<Rightarrow> keywordEntry list \<Rightarrow> entity list option \<Rightarrow> KeywordStatus"
where
  \<comment> \<open>the chain from "Look for exact match in the keywords array" to the end\<close>
  "structuredStatus u keyword lowerKeyword ks ents =
     (if list_ex (\<lambda>k. isExactKeywordMatch u (kw_text k) keyword) ks then Exact
      else if list_ex (\<lambda>k. isPartialKeywordMatch u (kw_text k) keyword) ks then Partial
      else if substringMatch lowerKeyword ks then Partial
      else if isKeywordInTopPositions u keyword ks 10 then Relevant
      else (case ents of
              None \<Rightarrow> Missing
            | Some es \<Rightarrow> if es \<noteq> [] \<and> entityMatch lowerKeyword es then Exact else Missing))"

definition checkKeywordStatus ::
  "keywordUtils \<Rightarrow> string \<Rightarrow> results option \<Rightarrow> error + KeywordStatus"
where
  "checkKeywordStatus u keyword resultsToUse =
     (case resultsToUse of
        None \<Rightarrow> Inr Missing
      | Some r \<Rightarrow>
          (case keywordEntries r of
             None \<Rightarrow> Inr Missing
           | Some ks \<Rightarrow>
               if keyword = [] then Inr Missing
               else
                 let lowerKeyword = trim (toLowerCase keyword);
                     optText = (case optimizedText r of None \<Rightarrow> [] | Some t \<Rightarrow> t)
                 in if optText \<noteq> [] \<and> includesStr lowerKeyword domainToken
                    then (case newRegExp (escapeRegExp lowerKeyword) of
                            Inl e \<Rightarrow> Inl e
                          | Inr lit \<Rightarrow>
                              if wordBoundaryTest lit (toLowerCase optText) then Inr Exact
                              else Inr (structuredStatus u keyword lowerKeyword ks (entities r)))
                    else Inr (structuredStatus u keyword lowerKeyword ks (entities r))))"

section \<open>mockAnalysisForKeywords\<close>

record loopState =
  mockKeywords :: "keywordEntry list"
  mockEntities :: "entity list"

definition exactEntry :: "string \<Rightarrow> keywordEntry" where
  "exactEntry keyword = \<lparr>kw_text = keyword, kw_relevance = 95 / 100, kw_count = 1\<rparr>"

definition partialEntry :: "string \<Rightarrow> keywordEntry" where
  "partialEntry keyword =
     \<lparr>kw_text = keyword @ '' (partial)'', kw_relevance = 8 / 10, kw_count = 1\<rparr>"

definition productEntity :: "string \<Rightarrow> entity" where
  "productEntity keyword =
     \<lparr>en_type = ''ProductType'', en_text = keyword, en_relevance = 95 / 100,
      en_confidence = 9 / 10, en_count = 1\<rparr>"

definition phraseEntry :: "string \<Rightarrow> nat \<Rightarrow> keywordEntry" where
  "phraseEntry phrase j =
     \<lparr>kw_text = phrase, kw_relevance = 7 / 10 - (1 / 10) * of_nat j, kw_count = 1\<rparr>"

definition phraseEntity :: "string \<Rightarrow> entity" where
  "phraseEntity phrase =
     \<lparr>en_type = ''ProductType'', en_text = phrase, en_relevance = 7 / 10,
      en_confidence = 8 / 10, en_count = 1\<rparr>"

definition targetStep :: "string \<Rightarrow> string \<Rightarrow> loopState \<Rightarrow> error + loopState" where
  \<comment> \<open>the body of \<open>for (const keyword of targetKeywords)\<close>\<close>
  "targetStep optimizedContent keyword st =
     (let lowerKeyword = trim (toLowerCase keyword);
          lowerContent = toLowerCase optimizedContent
      in case newRegExp (escapeRegExp lowerKeyword) of
           Inl e \<Rightarrow> Inl e
         | Inr lit \<Rightarrow>
             if delimitedTest lit lowerContent
             then Inr \<lparr>mockKeywords = mockKeywords st @ [exactEntry keyword],
                       mockEntities =
                         (if includesStr (toLowerCase keyword) domainToken
                          then mockEntities st @ [productEntity keyword]
                          else mockEntities st)\<rparr>
             else if includesStr lowerContent lowerKeyword
             then Inr (st\<lparr>mockKeywords := mockKeywords st @ [partialEntry keyword]\<rparr>)
             else Inr st)"

fun targetLoop :: "string \<Rightarrow> string list \<Rightarrow> loopState \<Rightarrow> error + loopState" where
  "targetLoop optimizedContent [] st = Inr st"
| "targetLoop optimizedContent (keyword # rest) st =
     (case targetStep optimizedContent keyword st of
        Inl e \<Rightarrow> Inl e
      | Inr st' \<Rightarrow> targetLoop optimizedContent rest st')"

definition isDuplicateIn :: "string \<Rightarrow> keywordEntry list \<Rightarrow> bool" where
  \<comment> \<open>\<open>mockKeywords.some(k => k.text.toLowerCase() === phrase.toLowerCase())\<close>\<close>
  "isDuplicateIn phrase ks = list_ex (\<lambda>k. toLowerCase (kw_text k) = toLowerCase phrase) ks"

definition phraseStep :: "string list \<Rightarrow> nat \<Rightarrow> nat \<Rightarrow> loopState \<Rightarrow> loopState" where
  \<comment> \<open>the body of the inner loop \<open>for (let j = 1; j <= 3; j++)\<close>\<close>
  "phraseStep ws i j st =
     (if i + j \<le> length ws
      then let phrase = joinSpace (take j (drop i ws))
           in if length phrase < 3 \<or>
                 isDuplicateIn phrase (mockKeywords st)
              then st
              else \<lparr>mockKeywords = mockKeywords st @ [phraseEntry phrase j],
                    mockEntities =
                      (if includesStr (toLowerCase phrase) domainToken \<and>
                          \<not> list_ex (\<lambda>e. toLowerCase (en_text e) = toLowerCase phrase)
                                     (mockEntities st)
                       then mockEntities st @ [phraseEntity phrase]
                       else mockEntities st)\<rparr>
      else st)"

definition phraseLoop :: "string list \<Rightarrow> loopState \<Rightarrow> loopState" where
  "phraseLoop ws st =
     fold (\<lambda>i. fold (\<lambda>j. phraseStep ws i j) [1, 2, 3]) [0 ..< length ws] st"

definition initialState :: loopState where
  \<comment> \<open>\<open>const mockKeywords = []; const mockEntities = [];\<close>\<close>
  "initialState = \<lparr>mockKeywords = [], mockEntities = []\<rparr>"

definition candidates :: "string \<Rightarrow> string list \<Rightarrow> error + loopState" where
  \<comment> \<open>\<open>mockKeywords\<close> and \<open>mockEntities\<close> when both loops are through\<close>
  "candidates optimizedContent targetKeywords =
     (case targetLoop optimizedContent targetKeywords initialState of
        Inl e \<Rightarrow> Inl e
      | Inr st \<Rightarrow> Inr (phraseLoop (splitWhitespace optimizedContent) st))"

definition sortByRelevance :: "keywordEntry list \<Rightarrow> keywordEntry list" where
  \<comment> \<open>\<open>.sort((a, b) => b.relevance - a.relevance)\<close>: descending, and stable, as
      \<open>Array.prototype.sort\<close> is since ECMAScript 2019\<close>
  "sortByRelevance ks = sort_key (\<lambda>k. - kw_relevance k) ks"

definition mockAnalysisForKeywords ::
  "results option \<Rightarrow> string \<Rightarrow> string list \<Rightarrow> error + results"
where
  \<comment> \<open>\<open>{ ...results }\<close> accepts a missing \<open>results\<close>; \<open>results.entities\<close> does not.\<close>
  "mockAnalysisForKeywords res optimizedContent targetKeywords =
     (case candidates optimizedContent targetKeywords of
        Inl e \<Rightarrow> Inl e
      | Inr st \<Rightarrow>
          (let top = take 15 (sortByRelevance (mockKeywords st))
           in (case res of
                 None \<Rightarrow> Inl TypeError
               | Some r \<Rightarrow>
                   Inr (r\<lparr>optimizedText := Some optimizedContent,
                          keywordEntries := Some top,
                          entities :=
                            Some (case entities r of
                                    None \<Rightarrow> mockEntities st
                                  | Some es \<Rightarrow>
                                      if es \<noteq> [] then mockEntities st @ es
                                      else mockEntities st)\<rparr>))))"

section \<open>Notions used by the statements\<close>

text \<open>
  Modelled from the spec: \<open>utils/keywordUtils\<close> is not among the sources. The three
  predicates follow the specification's description of them ("an exact
  (case/whitespace-insensitive) match", "token overlap or stem-level similarity", "judged
  relevant when restricted to the top 10 entries"). They serve as one concrete choice
  of the parameters; every general theorem below holds for all choices.
\<close>

definition specTokens :: "string \<Rightarrow> string list" where
  \<comment> \<open>Modelled from the spec: the tokens compared by the partial match of
      \<open>keywordUtils\<close>, lower-cased words\<close>
  "specTokens s = filter (\<lambda>t. t \<noteq> []) (splitWhitespace (toLowerCase s))"

definition specIsExactKeywordMatch :: "string \<Rightarrow> string \<Rightarrow> bool" where
  \<comment> \<open>Modelled from the spec: \<open>isExactKeywordMatch\<close> of \<open>keywordUtils\<close>, "an exact
      (case/whitespace-insensitive) match"\<close>
  "specIsExactKeywordMatch entryText keyword =
     (trim (toLowerCase entryText) = trim (toLowerCase keyword))"

definition specIsPartialKeywordMatch :: "string \<Rightarrow> string \<Rightarrow> bool" where
  \<comment> \<open>Modelled from the spec: \<open>isPartialKeywordMatch\<close> of \<open>keywordUtils\<close>, "token
      overlap or stem-level similarity": two tokens are equal or one begins with the other\<close>
  "specIsPartialKeywordMatch entryText keyword =
     list_ex (\<lambda>a. list_ex (\<lambda>b. startsWith a b \<or> startsWith b a) (specTokens keyword))
       (specTokens entryText)"

definition specIsKeywordInTopPositions :: "string \<Rightarrow> keywordEntry list \<Rightarrow> nat \<Rightarrow> bool" where
  \<comment> \<open>Modelled from the spec: \<open>isKeywordInTopPositions\<close> of \<open>keywordUtils\<close>, the
      keyword "judged relevant when restricted to the top" entries\<close>
  "specIsKeywordInTopPositions keyword ks n =
     list_ex (\<lambda>k. specIsExactKeywordMatch (kw_text k) keyword \<or>
                   specIsPartialKeywordMatch (kw_text k) keyword) (take n ks)"

definition specKeywordUtils :: keywordUtils where
  \<comment> \<open>Modelled from the spec: the three predicates of \<open>keywordUtils\<close> together\<close>
  "specKeywordUtils =
     \<lparr>isExactKeywordMatch = specIsExactKeywordMatch,
      isPartialKeywordMatch = specIsPartialKeywordMatch,
      isKeywordInTopPositions = specIsKeywordInTopPositions\<rparr>"

text \<open>
  Modelled from the spec: the type \<open>KeywordStatus\<close> is declared outside the sources; the
  specification orders its values by confidence, exact > partial > relevant > missing.
\<close>

fun tierRank :: "KeywordStatus \<Rightarrow> nat" where
  \<comment> \<open>Modelled from the spec: the order of confidence on \<open>KeywordStatus\<close>\<close>
  "tierRank Exact = 3"
| "tierRank Partial = 2"
| "tierRank Relevant = 1"
| "tierRank Missing = 0"

definition domainRuleFires :: "string \<Rightarrow> results \<Rightarrow> bool" where
  \<comment> \<open>rule 1: \<open>optimizedText\<close> is not empty, the domain token is in the normalised
      keyword, and the keyword is found as a whole word in the lower-cased text\<close>
  "domainRuleFires keyword r =
     (let optText = (case optimizedText r of None \<Rightarrow> [] | Some t \<Rightarrow> t)
      in optText \<noteq> [] \<and> includesStr (trim (toLowerCase keyword)) domainToken \<and>
         wordBoundaryTest (trim (toLowerCase keyword)) (toLowerCase optText))"

definition structuredRuleFires :: "keywordUtils \<Rightarrow> string \<Rightarrow> keywordEntry list \<Rightarrow> bool" where
  \<comment> \<open>rules 2 and 3: exact or partial structured match\<close>
  "structuredRuleFires u keyword ks =
     (list_ex (\<lambda>k. isExactKeywordMatch u (kw_text k) keyword) ks \<or>
      list_ex (\<lambda>k. isPartialKeywordMatch u (kw_text k) keyword) ks)"

definition earlierRuleFires :: "keywordUtils \<Rightarrow> string \<Rightarrow> results \<Rightarrow> bool" where
  \<comment> \<open>one of the rules 1 to 5; the rules 2 to 5 read the keyword list\<close>
  "earlierRuleFires u keyword r =
     (domainRuleFires keyword r \<or>
      (case keywordEntries r of
         None \<Rightarrow> False
       | Some ks \<Rightarrow> structuredRuleFires u keyword ks \<or>
                    substringMatch (trim (toLowerCase keyword)) ks \<or>
                    isKeywordInTopPositions u keyword ks 10))"

definition trimEntityTexts :: "results \<Rightarrow> results" where
  \<comment> \<open>every entity's text replaced by its trimmed form\<close>
  "trimEntityTexts r =
     r\<lparr>entities := map_option (map (\<lambda>e. e\<lparr>en_text := trim (en_text e)\<rparr>)) (entities r)\<rparr>"

definition matchesContent :: "string \<Rightarrow> string \<Rightarrow> bool" where
  \<comment> \<open>the target keyword matches the content, exactly or as a substring\<close>
  "matchesContent optimizedContent keyword =
     (delimitedTest (trim (toLowerCase keyword)) (toLowerCase optimizedContent) \<or>
      includesStr (toLowerCase optimizedContent) (trim (toLowerCase keyword)))"

definition targetEntry :: "string \<Rightarrow> string \<Rightarrow> keywordEntry" where
  \<comment> \<open>the entry the first loop pushes for a keyword that matches the content\<close>
  "targetEntry optimizedContent keyword =
     (if delimitedTest (trim (toLowerCase keyword)) (toLowerCase optimizedContent)
      then exactEntry keyword else partialEntry keyword)"

definition targetEntries :: "string \<Rightarrow> string list \<Rightarrow> keywordEntry list" where
  "targetEntries optimizedContent targetKeywords =
     map (targetEntry optimizedContent) (filter (matchesContent optimizedContent) targetKeywords)"

definition isProductMatch :: "string \<Rightarrow> string \<Rightarrow> bool" where
  "isProductMatch optimizedContent keyword =
     (delimitedTest (trim (toLowerCase keyword)) (toLowerCase optimizedContent) \<and>
      includesStr (toLowerCase keyword) domainToken)"

definition targetEntities :: "string \<Rightarrow> string list \<Rightarrow> entity list" where
  "targetEntities optimizedContent targetKeywords =
     map productEntity (filter (isProductMatch optimizedContent) targetKeywords)"

definition represented :: "string \<Rightarrow> keywordEntry list \<Rightarrow> bool" where
  \<comment> \<open>the keyword has its entry in the list, in one of the two forms\<close>
  "represented keyword ks = (exactEntry keyword \<in> set ks \<or> partialEntry keyword \<in> set ks)"

definition countHigher :: "rat \<Rightarrow> keywordEntry list \<Rightarrow> nat" where
  "countHigher rel ks = length (filter (\<lambda>k. rel < kw_relevance k) ks)"

definition countAtLeast :: "rat \<Rightarrow> keywordEntry list \<Rightarrow> nat" where
  "countAtLeast rel ks = length (filter (\<lambda>k. rel \<le> kw_relevance k) ks)"

fun addedFresh :: "keywordEntry list \<Rightarrow> keywordEntry list \<Rightarrow> bool" where
  \<comment> \<open>\<open>added\<close> was pushed onto \<open>present\<close> one entry at a time, each of at least three
      characters and no duplicate of an entry in the list at that moment\<close>
  "addedFresh present [] = True"
| "addedFresh present (e # es) =
     (3 \<le> length (kw_text e) \<and> \<not> isDuplicateIn (kw_text e) present \<and>
      addedFresh (present @ [e]) es)"

definition isPhraseEntry :: "string list \<Rightarrow> keywordEntry \<Rightarrow> bool" where
  \<comment> \<open>the entry of a window of \<open>j\<close> consecutive tokens, \<open>j\<close> from 1 to 3\<close>
  "isPhraseEntry ws e =
     list_ex (\<lambda>i. list_ex (\<lambda>j. i + j \<le> length ws \<and>
                              e = phraseEntry (joinSpace (take j (drop i ws))) j) [1, 2, 3])
       [0 ..< length ws]"

definition descending :: "keywordEntry list \<Rightarrow> bool" where
  "descending ks = sorted_wrt (\<lambda>a b. kw_relevance b \<le> kw_relevance a) ks"

definition sampleResults :: results where
  \<comment> \<open>a result of an earlier run, with one entity of its own\<close>
  "sampleResults =
     \<lparr>optimizedText = Some ''Great bras'',
      keywordEntries = Some [\<lparr>kw_text = ''bras'', kw_relevance = 9 / 10, kw_count = 2\<rparr>],
      entities = Some [\<lparr>en_type = ''Company'', en_text = ''Acme'', en_relevance = 1 / 2,
                        en_confidence = 1 / 2, en_count = 1\<rparr>]\<rparr>"

definition returnedKeywords :: "error + results \<Rightarrow> keywordEntry list" where
  \<comment> \<open>the \<open>keywords\<close> of a returned result; empty when nothing is returned\<close>
  "returnedKeywords x =
     (case x of
        Inl e \<Rightarrow> []
      | Inr out \<Rightarrow> (case keywordEntries out of None \<Rightarrow> [] | Some ks \<Rightarrow> ks))"

definition candidateKeywords :: "error + loopState \<Rightarrow> keywordEntry list" where
  "candidateKeywords x = (case x of Inl e \<Rightarrow> [] | Inr st \<Rightarrow> mockKeywords st)"

definition sixteenLetters :: "string list" where
  "sixteenLetters =
     [''a'', ''b'', ''c'', ''d'', ''e'', ''f'', ''g'', ''h'',
      ''i'', ''j'', ''k'', ''l'', ''m'', ''n'', ''o'', ''p'']"





definition braEntity :: "string \<Rightarrow> entity" where
  "braEntity t =
     \<lparr>en_type = ''Product'', en_text = t, en_relevance = 9 / 10, en_confidence = 9 / 10,
      en_count = 1\<rparr>"



definition entityResults :: "string \<Rightarrow> results" where
  \<comment> \<open>no text, no keyword entry, one entity with the given text\<close>
  "entityResults t =
     \<lparr>optimizedText = None, keywordEntries = Some [], entities = Some [braEntity t]\<rparr>"

definition entityOnlyResults :: results where
  \<comment> \<open>one entity and no field \<open>keywords\<close>\<close>
  "entityOnlyResults =
     \<lparr>optimizedText = None, keywordEntries = None, entities = Some [braEntity ''bra'']\<rparr>"

definition keywordResults :: results where
  \<comment> \<open>one keyword entry and one entity\<close>
  "keywordResults =
     \<lparr>optimizedText = Some ''A light laptop'',
      keywordEntries = Some [\<lparr>kw_text = ''laptop'', kw_relevance = 9 / 10, kw_count = 1\<rparr>],
      entities = Some [braEntity ''silk'']\<rparr>"





definition percentResults :: results where
  \<comment> \<open>a text with a keyword that ends in a character outside \<open>\w\<close>\<close>
  "percentResults =
     \<lparr>optimizedText = Some ''cotton bras 100% soft'', keywordEntries = Some [],
      entities = None\<rparr>"

definition sameRelevance :: "rat \<Rightarrow> keywordEntry list \<Rightarrow> keywordEntry list" where
  \<comment> \<open>the entries of relevance \<open>v\<close>, in their order\<close>
  "sameRelevance v ks = filter (\<lambda>k. kw_relevance k = v) ks"

section \<open>The pattern always compiles\<close>

lemma parseLiteral_plain:
  "c \<notin> set escapedChars \<Longrightarrow> parseLiteral (c # s) = map_option ((#) c) (parseLiteral s)"
  by (cases s) (auto simp: escapedChars_def syntaxChars_def)

lemma parseLiteral_escaped:
  "c \<in> set escapedChars \<Longrightarrow>
     parseLiteral (backslash # c # s) = map_option ((#) c) (parseLiteral s)"
  by simp

lemma parseLiteral_escapeRegExp: "parseLiteral (escapeRegExp s) = Some s"
proof (induction s)
  case Nil
  show ?case by simp
next
  case (Cons c cs)
  show ?case
  proof (cases "c \<in> set escapedChars")
    case True
    then show ?thesis using Cons.IH by (simp del: parseLiteral.simps add: parseLiteral_escaped)
  next
    case False
    then show ?thesis using Cons.IH by (simp del: parseLiteral.simps add: parseLiteral_plain)
  qed
qed

lemma newRegExp_escapeRegExp: "newRegExp (escapeRegExp s) = Inr s"
  by (simp add: newRegExp_def parseLiteral_escapeRegExp)

lemma targetStep_keywords:
  "targetStep c kw st =
     Inr \<lparr>mockKeywords = mockKeywords st @ targetEntries c [kw],
          mockEntities = mockEntities st @ targetEntities c [kw]\<rparr>"
  by (simp add: targetStep_def newRegExp_escapeRegExp targetEntries_def targetEntities_def
      matchesContent_def targetEntry_def isProductMatch_def Let_def)

lemma targetEntries_Cons:
  "targetEntries c (kw # kws) = targetEntries c [kw] @ targetEntries c kws"
  by (simp add: targetEntries_def)

lemma targetEntities_Cons:
  "targetEntities c (kw # kws) = targetEntities c [kw] @ targetEntities c kws"
  by (simp add: targetEntities_def)

lemma targetLoop_closed:
  "targetLoop c kws st =
     Inr \<lparr>mockKeywords = mockKeywords st @ targetEntries c kws,
          mockEntities = mockEntities st @ targetEntities c kws\<rparr>"
proof (induction kws arbitrary: st)
  case Nil
  show ?case by (simp add: targetEntries_def targetEntities_def)
next
  case (Cons kw kws)
  show ?case
    by (simp only: targetLoop.simps targetStep_keywords sum.case Cons.IH
        targetEntries_Cons [of c kw kws] targetEntities_Cons [of c kw kws])
       simp
qed

lemma candidates_closed:
  "candidates c kws =
     Inr (phraseLoop (splitWhitespace c)
            \<lparr>mockKeywords = targetEntries c kws, mockEntities = targetEntities c kws\<rparr>)"
  by (simp add: candidates_def targetLoop_closed initialState_def)

section \<open>Sorting and truncation\<close>

lemma descending_sortByRelevance: "descending (sortByRelevance ks)"
proof -
  have "sorted (map (\<lambda>k. - kw_relevance k) (sortByRelevance ks))"
    by (simp add: sortByRelevance_def)
  then show ?thesis
    by (simp add: descending_def sorted_map sorted_wrt_iff_nth_less)
qed

lemma descending_take: "descending ks \<Longrightarrow> descending (take n ks)"
  unfolding descending_def by (rule sorted_wrt_take)


section \<open>The two loops\<close>

lemma fold_invariant:
  assumes "\<And>x s. P s \<Longrightarrow> P (f x s)" and "P s"
  shows "P (fold f xs s)"
  using assms(2) by (induction xs arbitrary: s) (auto intro: assms(1))

lemma phraseLoop_invariant:
  assumes step: "\<And>i j s. P s \<Longrightarrow> i + j \<le> length ws \<Longrightarrow> j \<in> {1, 2, 3} \<Longrightarrow> i < length ws
                   \<Longrightarrow> P (phraseStep ws i j s)"
    and init: "P st"
  shows "P (phraseLoop ws st)"
proof -
  have skip: "P (phraseStep ws i j s)" if "P s" and "j \<in> {1, 2, 3}" for i j s
  proof (cases "i + j \<le> length ws")
    case True
    with that have "i < length ws" by auto
    with True that show ?thesis by (intro step)
  next
    case False
    with that show ?thesis by (simp add: phraseStep_def)
  qed
  have inner: "P (fold (\<lambda>j. phraseStep ws i j) [1, 2, 3] s)" if "P s" for i s
    using that by (simp add: skip)
  show ?thesis
    unfolding phraseLoop_def by (rule fold_invariant [where P = P]) (erule inner, rule init)
qed

lemma addedFresh_snoc:
  "addedFresh present (added @ [e]) \<longleftrightarrow>
     addedFresh present added \<and> 3 \<le> length (kw_text e) \<and>
     \<not> isDuplicateIn (kw_text e) (present @ added)"
  by (induction added arbitrary: present) auto

lemma isPhraseEntry_intro:
  "i + j \<le> length ws \<Longrightarrow> i < length ws \<Longrightarrow> j \<in> {1, 2, 3} \<Longrightarrow>
     isPhraseEntry ws (phraseEntry (joinSpace (take j (drop i ws))) j)"
  unfolding isPhraseEntry_def list_ex_iff by auto

lemma phraseLoop_keywords:
  "\<exists>added. mockKeywords (phraseLoop ws st) = mockKeywords st @ added \<and>
           addedFresh (mockKeywords st) added \<and> (\<forall>e \<in> set added. isPhraseEntry ws e)"
proof (rule phraseLoop_invariant)
  show "\<exists>added. mockKeywords st = mockKeywords st @ added \<and>
           addedFresh (mockKeywords st) added \<and> (\<forall>e \<in> set added. isPhraseEntry ws e)"
    by (rule exI [of _ "[]"]) simp
next
  fix i j and s :: loopState
  assume "\<exists>added. mockKeywords s = mockKeywords st @ added \<and>
           addedFresh (mockKeywords st) added \<and> (\<forall>e \<in> set added. isPhraseEntry ws e)"
    and ij: "i + j \<le> length ws" "j \<in> {1, 2, 3}" "i < length ws"
  then obtain added where a: "mockKeywords s = mockKeywords st @ added"
    "addedFresh (mockKeywords st) added" "\<forall>e \<in> set added. isPhraseEntry ws e"
    by blast
  define phrase where "phrase = joinSpace (take j (drop i ws))"
  show "\<exists>added. mockKeywords (phraseStep ws i j s) = mockKeywords st @ added \<and>
           addedFresh (mockKeywords st) added \<and> (\<forall>e \<in> set added. isPhraseEntry ws e)"
  proof (cases "length phrase < 3 \<or> isDuplicateIn phrase (mockKeywords s)")
    case True
    then have "phraseStep ws i j s = s"
      by (auto simp: phraseStep_def phrase_def Let_def)
    with a show ?thesis by auto
  next
    case False
    then have k: "mockKeywords (phraseStep ws i j s) = mockKeywords s @ [phraseEntry phrase j]"
      using ij by (simp add: phraseStep_def phrase_def Let_def)
    have "kw_text (phraseEntry phrase j) = phrase" by (simp add: phraseEntry_def)
    with False a have "addedFresh (mockKeywords st) (added @ [phraseEntry phrase j])"
      by (simp add: addedFresh_snoc)
    moreover have "isPhraseEntry ws (phraseEntry phrase j)"
      unfolding phrase_def using ij by (intro isPhraseEntry_intro)
    ultimately show ?thesis
      using a k by (intro exI [of _ "added @ [phraseEntry phrase j]"]) auto
  qed
qed

lemma phraseLoop_entities:
  "\<exists>found. mockEntities (phraseLoop ws st) = mockEntities st @ found \<and>
           (\<forall>e \<in> set found. en_type e = ''ProductType'')"
proof (rule phraseLoop_invariant)
  show "\<exists>found. mockEntities st = mockEntities st @ found \<and>
           (\<forall>e \<in> set found. en_type e = ''ProductType'')"
    by (rule exI [of _ "[]"]) simp
next
  fix i j and s :: loopState
  assume "\<exists>found. mockEntities s = mockEntities st @ found \<and>
           (\<forall>e \<in> set found. en_type e = ''ProductType'')"
  then obtain found where f: "mockEntities s = mockEntities st @ found"
    "\<forall>e \<in> set found. en_type e = ''ProductType''"
    by blast
  have "mockEntities (phraseStep ws i j s) = mockEntities s \<or>
        mockEntities (phraseStep ws i j s)
          = mockEntities s @ [phraseEntity (joinSpace (take j (drop i ws)))]"
    by (simp add: phraseStep_def Let_def)
  then show "\<exists>found. mockEntities (phraseStep ws i j s) = mockEntities st @ found \<and>
           (\<forall>e \<in> set found. en_type e = ''ProductType'')"
  proof
    assume "mockEntities (phraseStep ws i j s) = mockEntities s"
    with f show ?thesis by auto
  next
    assume "mockEntities (phraseStep ws i j s)
          = mockEntities s @ [phraseEntity (joinSpace (take j (drop i ws)))]"
    with f show ?thesis
      by (intro exI [of _ "found @ [phraseEntity (joinSpace (take j (drop i ws)))]"])
         (auto simp: phraseEntity_def)
  qed
qed

lemma targetEntities_type: "\<forall>e \<in> set (targetEntities c kws). en_type e = ''ProductType''"
  by (auto simp: targetEntities_def productEntity_def)

lemma candidates_entities_type:
  "candidates c kws = Inr st \<Longrightarrow> \<forall>e \<in> set (mockEntities st). en_type e = ''ProductType''"
  using phraseLoop_entities [of "splitWhitespace c"
      "\<lparr>mockKeywords = targetEntries c kws, mockEntities = targetEntities c kws\<rparr>"]
    targetEntities_type [of c kws]
  by (auto simp: candidates_closed)

lemma candidates_returns: "\<exists>st. candidates c kws = Inr st"
  by (simp add: candidates_closed)

lemma mock_present:
  "candidates c kws = Inr st \<Longrightarrow>
   mockAnalysisForKeywords (Some r) c kws =
     Inr (r\<lparr>optimizedText := Some c,
            keywordEntries := Some (take 15 (sortByRelevance (mockKeywords st))),
            entities := Some (case entities r of None \<Rightarrow> mockEntities st
                              | Some es \<Rightarrow> if es \<noteq> [] then mockEntities st @ es
                                           else mockEntities st)\<rparr>)"
  by (simp add: mockAnalysisForKeywords_def)

section \<open>The returned keyword and entity lists\<close>

text \<open>
  C7. For every source result, content and target keywords, the \<open>keywords\<close> field of
  the returned result is the list of accumulated candidates, sorted by descending
  relevance (a rearrangement of the candidates in which relevance never increases) and cut
  to its first 15 elements; so it is in descending order and has at most 15 elements.
\<close>

theorem C7_keywords_sorted_truncated:
  "\<exists>st out top. candidates c kws = Inr st \<and>
      mockAnalysisForKeywords (Some r) c kws = Inr out \<and>
      keywordEntries out = Some top \<and>
      top = take 15 (sortByRelevance (mockKeywords st)) \<and>
      mset (sortByRelevance (mockKeywords st)) = mset (mockKeywords st) \<and>
      descending (sortByRelevance (mockKeywords st)) \<and>
      descending top \<and> length top \<le> 15"
proof -
  obtain st where st: "candidates c kws = Inr st"
    using candidates_returns by blast
  let ?sorted = "sortByRelevance (mockKeywords st)"
  have "mset ?sorted = mset (mockKeywords st)"
    by (simp add: sortByRelevance_def)
  moreover have "descending ?sorted" by (rule descending_sortByRelevance)
  moreover have "descending (take 15 ?sorted)"
    by (rule descending_take) (rule descending_sortByRelevance)
  ultimately show ?thesis
    using st mock_present [OF st, of r] by simp
qed


theorem C7_keywords_sorted_truncated_witness:
  "\<exists>st out top. candidates ''Great support for everyone'' [''support''] = Inr st \<and>
      mockAnalysisForKeywords (Some sampleResults) ''Great support for everyone'' [''support'']
        = Inr out \<and>
      keywordEntries out = Some top \<and>
      top = take 15 (sortByRelevance (mockKeywords st)) \<and>
      mset (sortByRelevance (mockKeywords st)) = mset (mockKeywords st) \<and>
      descending (sortByRelevance (mockKeywords st)) \<and>
      descending top \<and> length top \<le> 15"
  by (rule C7_keywords_sorted_truncated)

text \<open>
  C8. The \<open>entities\<close> field of the returned result is the list of newly detected
  entities (all of type ProductType, in the order of their detection) followed by the
  entities of the source result in their order; when the source result has no entities,
  it is the newly detected list alone.
\<close>

theorem C8_new_entities_first:
  "\<exists>st out. candidates c kws = Inr st \<and>
      mockAnalysisForKeywords (Some r) c kws = Inr out \<and>
      entities out = Some (mockEntities st @ (case entities r of None \<Rightarrow> [] | Some es \<Rightarrow> es)) \<and>
      (entities r = None \<longrightarrow> entities out = Some (mockEntities st)) \<and>
      (\<forall>e \<in> set (mockEntities st). en_type e = ''ProductType'')"
proof -
  obtain st where st: "candidates c kws = Inr st"
    using candidates_returns by blast
  show ?thesis
    using st mock_present [OF st, of r] candidates_entities_type [OF st]
    by (auto split: option.splits)
qed


theorem C8_new_entities_first_witness:
  "\<exists>st out. candidates ''We sell sports bras'' [''sports bras''] = Inr st \<and>
      mockAnalysisForKeywords (Some sampleResults) ''We sell sports bras'' [''sports bras'']
        = Inr out \<and>
      entities out
        = Some (mockEntities st @ (case entities sampleResults of None \<Rightarrow> [] | Some es \<Rightarrow> es)) \<and>
      (entities sampleResults = None \<longrightarrow> entities out = Some (mockEntities st)) \<and>
      (\<forall>e \<in> set (mockEntities st). en_type e = ''ProductType'')"
  by (rule C8_new_entities_first)

section \<open>Target entries rank above supplementary phrases\<close>

lemma insort_key_append_left:
  "\<forall>b \<in> set bs. f x \<le> f b \<Longrightarrow> insort_key f x (as @ bs) = insort_key f x as @ bs"
proof (induction as)
  case Nil
  then show ?case by (cases bs) auto
next
  case (Cons a as)
  then show ?case by simp
qed

lemma sort_key_append_separated:
  "\<forall>x \<in> set xs. \<forall>y \<in> set ys. f x \<le> f y \<Longrightarrow>
     sort_key f (xs @ ys) = sort_key f xs @ sort_key f ys"
proof (induction xs)
  case Nil
  show ?case by simp
next
  case (Cons x xs)
  then have "sort_key f (xs @ ys) = sort_key f xs @ sort_key f ys" by simp
  moreover have "\<forall>b \<in> set (sort_key f ys). f x \<le> f b" using Cons.prems by simp
  ultimately show ?case by (simp add: insort_key_append_left)
qed

lemma sortByRelevance_append:
  "\<forall>x \<in> set xs. \<forall>y \<in> set ys. kw_relevance y \<le> kw_relevance x \<Longrightarrow>
     sortByRelevance (xs @ ys) = sortByRelevance xs @ sortByRelevance ys"
  unfolding sortByRelevance_def by (rule sort_key_append_separated) simp

lemma length_sortByRelevance: "length (sortByRelevance ks) = length ks"
  by (simp add: sortByRelevance_def)

lemma set_sortByRelevance: "set (sortByRelevance ks) = set ks"
  by (simp add: sortByRelevance_def)

lemma mset_sortByRelevance: "mset (sortByRelevance ks) = mset ks"
  by (simp add: sortByRelevance_def)

lemma targetEntry_relevance:
  "kw_relevance (targetEntry c kw) = 95 / 100 \<or> kw_relevance (targetEntry c kw) = 8 / 10"
  by (simp add: targetEntry_def exactEntry_def partialEntry_def)

lemma targetEntries_relevance:
  "e \<in> set (targetEntries c kws) \<Longrightarrow> kw_relevance e = 95 / 100 \<or> kw_relevance e = 8 / 10"
  using targetEntry_relevance by (auto simp: targetEntries_def)

lemma isPhraseEntry_relevance:
  assumes "isPhraseEntry ws e"
  shows "\<exists>j \<in> {1, 2, 3}. kw_relevance e = 7 / 10 - (1 / 10) * of_nat j"
    and "kw_relevance e \<le> 6 / 10"
proof -
  from assms obtain i j where j: "j \<in> {1, 2, 3::nat}"
    and e: "e = phraseEntry (joinSpace (take j (drop i ws))) j"
    unfolding isPhraseEntry_def list_ex_iff by auto
  from e have r: "kw_relevance e = 7 / 10 - (1 / 10) * of_nat j"
    by (simp add: phraseEntry_def)
  with j show "\<exists>j \<in> {1, 2, 3}. kw_relevance e = 7 / 10 - (1 / 10) * of_nat j" by blast
  from j r show "kw_relevance e \<le> 6 / 10" by auto
qed

lemma length_targetEntries:
  "length (targetEntries c kws) = length (filter (matchesContent c) kws)"
  by (simp add: targetEntries_def)

lemma targetLoop_keywords:
  "targetLoop c kws initialState =
     Inr \<lparr>mockKeywords = targetEntries c kws, mockEntities = targetEntities c kws\<rparr>"
  by (simp add: targetLoop_closed initialState_def)

lemma candidates_split:
  "\<exists>added. candidates c kws = Inr st \<longrightarrow>
     mockKeywords st = targetEntries c kws @ added \<and>
     addedFresh (targetEntries c kws) added \<and>
     (\<forall>e \<in> set added. isPhraseEntry (splitWhitespace c) e)"
  using phraseLoop_keywords [of "splitWhitespace c"
      "\<lparr>mockKeywords = targetEntries c kws, mockEntities = targetEntities c kws\<rparr>"]
  by (auto simp: candidates_closed)

lemma sorted_candidates:
  assumes "\<forall>e \<in> set added. isPhraseEntry ws e"
  shows "sortByRelevance (targetEntries c kws @ added)
           = sortByRelevance (targetEntries c kws) @ sortByRelevance added"
proof (rule sortByRelevance_append, intro ballI)
  fix x y
  assume "x \<in> set (targetEntries c kws)" and "y \<in> set added"
  then have "8 / 10 \<le> kw_relevance x" and "kw_relevance y \<le> 6 / 10"
    using targetEntries_relevance [of x c kws] isPhraseEntry_relevance(2) [of ws y] assms
    by auto
  then show "kw_relevance y \<le> kw_relevance x" by simp
qed

text \<open>
  C9. The supplementary phrase extraction only appends to the keyword list, and every
  entry it appends has a text of at least three characters that is, lower-cased, different
  from the lower-cased text of every entry in the list at the moment of the insertion.
  This holds from any state of the list, and so from the state the first loop leaves.
\<close>

theorem C9_phrases_long_and_fresh:
  "(\<exists>added. mockKeywords (phraseLoop ws st) = mockKeywords st @ added \<and>
             addedFresh (mockKeywords st) added) \<and>
   (\<exists>st1 st2 added.
       targetLoop c kws initialState = Inr st1 \<and> candidates c kws = Inr st2 \<and>
       st2 = phraseLoop (splitWhitespace c) st1 \<and>
       mockKeywords st2 = mockKeywords st1 @ added \<and>
       addedFresh (mockKeywords st1) added)"
proof
  show "\<exists>added. mockKeywords (phraseLoop ws st) = mockKeywords st @ added \<and>
             addedFresh (mockKeywords st) added"
    using phraseLoop_keywords [of ws st] by blast
next
  let ?st1 = "\<lparr>mockKeywords = targetEntries c kws, mockEntities = targetEntities c kws\<rparr>"
  obtain added where "mockKeywords (phraseLoop (splitWhitespace c) ?st1)
      = mockKeywords ?st1 @ added" "addedFresh (mockKeywords ?st1) added"
    using phraseLoop_keywords [of "splitWhitespace c" ?st1] by blast
  then show "\<exists>st1 st2 added.
       targetLoop c kws initialState = Inr st1 \<and> candidates c kws = Inr st2 \<and>
       st2 = phraseLoop (splitWhitespace c) st1 \<and>
       mockKeywords st2 = mockKeywords st1 @ added \<and>
       addedFresh (mockKeywords st1) added"
    by (intro exI [of _ ?st1] exI [of _ "phraseLoop (splitWhitespace c) ?st1"] exI [of _ added])
       (simp add: targetLoop_keywords candidates_closed)
qed

theorem C9_phrases_long_and_fresh_witness:
  "(\<exists>added. mockKeywords (phraseLoop [''We'', ''sell'', ''bras''] initialState)
               = mockKeywords initialState @ added \<and>
             addedFresh (mockKeywords initialState) added) \<and>
   (\<exists>st1 st2 added.
       targetLoop ''We sell bras'' [''Bras''] initialState = Inr st1 \<and>
       candidates ''We sell bras'' [''Bras''] = Inr st2 \<and>
       st2 = phraseLoop (splitWhitespace ''We sell bras'') st1 \<and>
       mockKeywords st2 = mockKeywords st1 @ added \<and>
       addedFresh (mockKeywords st1) added)"
  by (rule C9_phrases_long_and_fresh)

text \<open>
  C10. Every entry derived from a target keyword has relevance 0.95 or 0.8; every
  supplementary entry is the entry of a window of j tokens (j from 1 to 3) with relevance
  0.7 - 0.1 * j, at most 0.6. So the sorted candidates are the sorted target entries
  followed by the sorted supplementary entries, and when at most 15 target keywords
  (counted as list elements) match the content, the returned list starts with all the
  target entries: none is cut off.
\<close>

theorem C10_target_entries_first:
  "\<exists>st1 st2 out top added.
      targetLoop c kws initialState = Inr st1 \<and> candidates c kws = Inr st2 \<and>
      mockAnalysisForKeywords (Some r) c kws = Inr out \<and> keywordEntries out = Some top \<and>
      mockKeywords st2 = mockKeywords st1 @ added \<and>
      length (mockKeywords st1) = length (filter (matchesContent c) kws) \<and>
      (\<forall>e \<in> set (mockKeywords st1). kw_relevance e = 95 / 100 \<or> kw_relevance e = 8 / 10) \<and>
      (\<forall>e \<in> set added. isPhraseEntry (splitWhitespace c) e \<and>
          (\<exists>j \<in> {1, 2, 3}. kw_relevance e = 7 / 10 - (1 / 10) * of_nat j) \<and>
          kw_relevance e \<le> 6 / 10) \<and>
      sortByRelevance (mockKeywords st2)
        = sortByRelevance (mockKeywords st1) @ sortByRelevance added \<and>
      top = take 15 (sortByRelevance (mockKeywords st1) @ sortByRelevance added) \<and>
      (length (filter (matchesContent c) kws) \<le> 15 \<longrightarrow>
         take (length (mockKeywords st1)) top = sortByRelevance (mockKeywords st1) \<and>
         mset (mockKeywords st1) \<subseteq># mset top)"
proof -
  let ?T = "targetEntries c kws"
  let ?st1 = "\<lparr>mockKeywords = ?T, mockEntities = targetEntities c kws\<rparr>"
  let ?st2 = "phraseLoop (splitWhitespace c) ?st1"
  have c: "candidates c kws = Inr ?st2" by (rule candidates_closed)
  obtain added where a: "mockKeywords ?st2 = ?T @ added"
    "\<forall>e \<in> set added. isPhraseEntry (splitWhitespace c) e"
    using candidates_split [of c kws ?st2] c by blast
  let ?top = "take 15 (sortByRelevance ?T @ sortByRelevance added)"
  have s: "sortByRelevance (?T @ added) = sortByRelevance ?T @ sortByRelevance added"
    using a(2) by (rule sorted_candidates)
  have m: "mockAnalysisForKeywords (Some r) c kws =
     Inr (r\<lparr>optimizedText := Some c, keywordEntries := Some ?top,
            entities := Some (case entities r of None \<Rightarrow> mockEntities ?st2
                              | Some es \<Rightarrow> if es \<noteq> [] then mockEntities ?st2 @ es
                                           else mockEntities ?st2)\<rparr>)"
    using mock_present [OF c, of r] a(1) s by simp
  have kept: "take (length ?T) ?top = sortByRelevance ?T \<and> mset ?T \<subseteq># mset ?top"
    if "length (filter (matchesContent c) kws) \<le> 15"
  proof -
    from that have l: "length ?T \<le> 15" by (simp add: length_targetEntries)
    then have t: "take (length ?T) ?top = sortByRelevance ?T"
      by (simp add: take_take min_def length_sortByRelevance)
    have "mset (take (length ?T) ?top) \<subseteq># mset ?top"
      by (metis append_take_drop_id mset_append mset_subset_eq_add_left)
    with t show ?thesis by (simp add: mset_sortByRelevance)
  qed
  have t: "targetLoop c kws initialState = Inr ?st1" by (rule targetLoop_keywords)
  have k: "keywordEntries (r\<lparr>optimizedText := Some c, keywordEntries := Some ?top,
            entities := Some (case entities r of None \<Rightarrow> mockEntities ?st2
                              | Some es \<Rightarrow> if es \<noteq> [] then mockEntities ?st2 @ es
                                           else mockEntities ?st2)\<rparr>) = Some ?top"
    by simp
  have a1: "mockKeywords ?st2 = mockKeywords ?st1 @ added" by (simp add: a(1))
  have len: "length (mockKeywords ?st1) = length (filter (matchesContent c) kws)"
    by (simp add: length_targetEntries)
  have rel1: "\<forall>e \<in> set (mockKeywords ?st1). kw_relevance e = 95 / 100 \<or> kw_relevance e = 8 / 10"
    using targetEntries_relevance [of _ c kws] by simp
  have rel2: "\<forall>e \<in> set added. isPhraseEntry (splitWhitespace c) e \<and>
          (\<exists>j \<in> {1, 2, 3}. kw_relevance e = 7 / 10 - (1 / 10) * of_nat j) \<and>
          kw_relevance e \<le> 6 / 10"
    using a(2) isPhraseEntry_relevance by blast
  have s2: "sortByRelevance (mockKeywords ?st2)
        = sortByRelevance (mockKeywords ?st1) @ sortByRelevance added"
    by (simp add: a(1) s)
  have top: "?top = take 15 (sortByRelevance (mockKeywords ?st1) @ sortByRelevance added)"
    by simp
  have kept': "length (filter (matchesContent c) kws) \<le> 15 \<longrightarrow>
         take (length (mockKeywords ?st1)) ?top = sortByRelevance (mockKeywords ?st1) \<and>
         mset (mockKeywords ?st1) \<subseteq># mset ?top"
    using kept by simp
  show ?thesis
    by (rule exI [of _ ?st1], rule exI [of _ ?st2], rule exI, rule exI [of _ ?top],
        rule exI [of _ added], intro conjI)
       (rule t c m k a1 len rel1 rel2 s2 top kept')+
qed


theorem C10_target_entries_first_witness:
  "length (filter (matchesContent ''We sell bras'') [''Bras'', ''sel'', ''shoes'']) \<le> 15 \<and>
   (\<exists>st1 st2 out top added.
      targetLoop ''We sell bras'' [''Bras'', ''sel'', ''shoes''] initialState = Inr st1 \<and>
      candidates ''We sell bras'' [''Bras'', ''sel'', ''shoes''] = Inr st2 \<and>
      mockAnalysisForKeywords (Some sampleResults) ''We sell bras'' [''Bras'', ''sel'', ''shoes'']
        = Inr out \<and>
      keywordEntries out = Some top \<and>
      mockKeywords st2 = mockKeywords st1 @ added \<and>
      take (length (mockKeywords st1)) top = sortByRelevance (mockKeywords st1) \<and>
      mset (mockKeywords st1) \<subseteq># mset top)"
proof -
  have h: "length (filter (matchesContent ''We sell bras'') [''Bras'', ''sel'', ''shoes'']) \<le> 15"
    by simp
  show ?thesis
    using h C10_target_entries_first [of "''We sell bras''" "[''Bras'', ''sel'', ''shoes'']"
        sampleResults]
    by blast
qed

section \<open>What the two pattern tests decide\<close>












section \<open>Target keywords in the returned list\<close>



lemma targetEntry_in_targetEntries:
  "kw \<in> set kws \<Longrightarrow> matchesContent c kw \<Longrightarrow> targetEntry c kw \<in> set (targetEntries c kws)"
  by (simp add: targetEntries_def)


lemma candidates_contain_targets:
  assumes "candidates c kws = Inr st"
  shows "set (targetEntries c kws) \<subseteq> set (mockKeywords st)"
    and "set (targetEntities c kws) \<subseteq> set (mockEntities st)"
proof -
  let ?st1 = "\<lparr>mockKeywords = targetEntries c kws, mockEntities = targetEntities c kws\<rparr>"
  have st: "st = phraseLoop (splitWhitespace c) ?st1"
    using assms by (simp add: candidates_closed)
  obtain added where "mockKeywords st = targetEntries c kws @ added"
    using phraseLoop_keywords [of "splitWhitespace c" ?st1] st by auto
  then show "set (targetEntries c kws) \<subseteq> set (mockKeywords st)" by simp
  obtain found where "mockEntities st = targetEntities c kws @ found"
    using phraseLoop_entities [of "splitWhitespace c" ?st1] st by auto
  then show "set (targetEntities c kws) \<subseteq> set (mockEntities st)" by simp
qed










subsection \<open>What the truncation can drop\<close>

lemma countAtLeast_sortByRelevance:
  "countAtLeast rel (sortByRelevance ks) = countAtLeast rel ks"
proof -
  have "mset (filter (\<lambda>k. rel \<le> kw_relevance k) (sortByRelevance ks))
      = mset (filter (\<lambda>k. rel \<le> kw_relevance k) ks)"
    by (simp add: mset_sortByRelevance)
  then show ?thesis
    unfolding countAtLeast_def by (rule mset_eq_length)
qed

lemma countAtLeast_append:
  "countAtLeast rel (xs @ ys) = countAtLeast rel xs + countAtLeast rel ys"
  by (simp add: countAtLeast_def)

lemma countAtLeast_all:
  "\<forall>x \<in> set xs. rel \<le> kw_relevance x \<Longrightarrow> countAtLeast rel xs = length xs"
  by (simp add: countAtLeast_def)

lemma countAtLeast_member:
  "e \<in> set xs \<Longrightarrow> rel \<le> kw_relevance e \<Longrightarrow> 1 \<le> countAtLeast rel xs"
  unfolding countAtLeast_def
  by (metis One_nat_def Suc_leI filter_empty_conv length_greater_0_conv)

lemma kept_or_outranked:
  assumes "e \<in> set ks"
  shows "e \<in> set (take n (sortByRelevance ks)) \<or>
         (length (take n (sortByRelevance ks)) = n \<and>
          (\<forall>x \<in> set (take n (sortByRelevance ks)). kw_relevance e \<le> kw_relevance x) \<and>
          n + 1 \<le> countAtLeast (kw_relevance e) ks)"
proof (cases "e \<in> set (take n (sortByRelevance ks))")
  case True
  then show ?thesis by simp
next
  case False
  let ?S = "sortByRelevance ks"
  have S: "?S = take n ?S @ drop n ?S" by simp
  have "e \<in> set ?S" using assms by (simp add: set_sortByRelevance)
  then have "e \<in> set (take n ?S) \<union> set (drop n ?S)"
    by (metis S set_append)
  with False have d: "e \<in> set (drop n ?S)" by blast
  then have "n < length ?S" by (cases "n < length ?S") auto
  then have len: "length (take n ?S) = n" by simp
  have "sorted_wrt (\<lambda>a b. kw_relevance b \<le> kw_relevance a) (take n ?S @ drop n ?S)"
    using descending_sortByRelevance [of ks] by (simp add: descending_def)
  then have above: "\<forall>x \<in> set (take n ?S). kw_relevance e \<le> kw_relevance x"
    using d unfolding sorted_wrt_append by blast
  have "countAtLeast (kw_relevance e) ks
      = countAtLeast (kw_relevance e) (take n ?S) + countAtLeast (kw_relevance e) (drop n ?S)"
    by (metis S countAtLeast_append countAtLeast_sortByRelevance)
  moreover have "countAtLeast (kw_relevance e) (take n ?S) = n"
    using above len by (simp add: countAtLeast_all)
  moreover have "1 \<le> countAtLeast (kw_relevance e) (drop n ?S)"
    using d by (rule countAtLeast_member) simp
  ultimately have "n + 1 \<le> countAtLeast (kw_relevance e) ks" by simp
  with len above show ?thesis by blast
qed

lemma sortByRelevance_stable:
  "sameRelevance v (sortByRelevance ks) = sameRelevance v ks"
proof -
  have "filter (\<lambda>k. - kw_relevance k = - v) (sort_key (\<lambda>k. - kw_relevance k) ks)
      = filter (\<lambda>k. - kw_relevance k = - v) ks"
    by (rule sort_key_stable)
  then show ?thesis by (simp add: sameRelevance_def sortByRelevance_def)
qed

text \<open>
  C1, as stated, fails. Sixteen target keywords, the letters a to p, all occur in the
  one-word content "abcdefghijklmnop". Each gets its entry "x (partial)" of relevance 0.8,
  the sort keeps them in their order, and the sixteenth, for "p", is cut off: it is
  not represented in the 15 returned entries although no candidate at all has a higher
  relevance.
\<close>

theorem C1_truncation_counterexample:
  "''p'' \<in> set sixteenLetters \<and>
   includesStr (toLowerCase ''abcdefghijklmnop'') (trim (toLowerCase ''p'')) \<and>
   length (returnedKeywords
             (mockAnalysisForKeywords (Some sampleResults) ''abcdefghijklmnop'' sixteenLetters))
     = 15 \<and>
   \<not> represented ''p''
       (returnedKeywords
          (mockAnalysisForKeywords (Some sampleResults) ''abcdefghijklmnop'' sixteenLetters)) \<and>
   countHigher (kw_relevance (partialEntry ''p''))
     (candidateKeywords (candidates ''abcdefghijklmnop'' sixteenLetters)) = 0"
  by code_simp

text \<open>
  C1, amended. Every target keyword whose lower-cased, trimmed text occurs in the
  lower-cased content has its entry among the candidates, with the keyword as text and
  relevance 0.95 or with the keyword followed by " (partial)" and relevance 0.8. The
  returned list is the first 15 entries of the candidates sorted by descending relevance,
  the entries of equal relevance keeping their order of insertion. The keyword's entry is
  in the returned list unless that truncation drops it, and then the returned list has 15
  entries, each of a relevance equal to or higher than the entry's: counting the entry
  itself, at least 16 candidates have at least its relevance.
\<close>

theorem C1_matching_keyword_represented:
  "kw \<in> set kws \<and> includesStr (toLowerCase c) (trim (toLowerCase kw)) \<longrightarrow>
     (\<exists>st out top.
        candidates c kws = Inr st \<and> mockAnalysisForKeywords (Some r) c kws = Inr out \<and>
        keywordEntries out = Some top \<and>
        top = take 15 (sortByRelevance (mockKeywords st)) \<and>
        descending (sortByRelevance (mockKeywords st)) \<and>
        (\<forall>v. sameRelevance v (sortByRelevance (mockKeywords st))
               = sameRelevance v (mockKeywords st)) \<and>
        (targetEntry c kw = exactEntry kw \<or> targetEntry c kw = partialEntry kw) \<and>
        targetEntry c kw \<in> set (mockKeywords st) \<and>
        (represented kw top \<or>
         (length top = 15 \<and>
          (\<forall>x \<in> set top. kw_relevance (targetEntry c kw) \<le> kw_relevance x) \<and>
          16 \<le> countAtLeast (kw_relevance (targetEntry c kw)) (mockKeywords st))))"
proof
  assume h: "kw \<in> set kws \<and> includesStr (toLowerCase c) (trim (toLowerCase kw))"
  obtain st where st: "candidates c kws = Inr st"
    using candidates_returns by blast
  let ?e = "targetEntry c kw" and ?top = "take 15 (sortByRelevance (mockKeywords st))"
  have form: "?e = exactEntry kw \<or> ?e = partialEntry kw"
    by (simp add: targetEntry_def)
  have "matchesContent c kw" using h by (simp add: matchesContent_def)
  then have mem: "?e \<in> set (mockKeywords st)"
    using targetEntry_in_targetEntries [of kw kws c] candidates_contain_targets(1) [OF st] h
    by blast
  have "represented kw ?top \<or>
         (length ?top = 15 \<and>
          (\<forall>x \<in> set ?top. kw_relevance ?e \<le> kw_relevance x) \<and>
          16 \<le> countAtLeast (kw_relevance ?e) (mockKeywords st))"
    using kept_or_outranked [OF mem, of 15] form by (auto simp: represented_def)
  then show "\<exists>st out top.
        candidates c kws = Inr st \<and> mockAnalysisForKeywords (Some r) c kws = Inr out \<and>
        keywordEntries out = Some top \<and>
        top = take 15 (sortByRelevance (mockKeywords st)) \<and>
        descending (sortByRelevance (mockKeywords st)) \<and>
        (\<forall>v. sameRelevance v (sortByRelevance (mockKeywords st))
               = sameRelevance v (mockKeywords st)) \<and>
        (targetEntry c kw = exactEntry kw \<or> targetEntry c kw = partialEntry kw) \<and>
        targetEntry c kw \<in> set (mockKeywords st) \<and>
        (represented kw top \<or>
         (length top = 15 \<and>
          (\<forall>x \<in> set top. kw_relevance (targetEntry c kw) \<le> kw_relevance x) \<and>
          16 \<le> countAtLeast (kw_relevance (targetEntry c kw)) (mockKeywords st)))"
    using st mock_present [OF st, of r] form mem
    by (simp add: descending_sortByRelevance sortByRelevance_stable)
qed

lemma sel_in_content:
  "includesStr (toLowerCase ''We sell bras'') (trim (toLowerCase '' Sel''))"
  by code_simp

theorem C1_matching_keyword_represented_witness:
  "'' Sel'' \<in> set [''shoes'', '' Sel''] \<and>
   includesStr (toLowerCase ''We sell bras'') (trim (toLowerCase '' Sel'')) \<and>
   (\<exists>st out top.
      candidates ''We sell bras'' [''shoes'', '' Sel''] = Inr st \<and>
      mockAnalysisForKeywords (Some sampleResults) ''We sell bras'' [''shoes'', '' Sel'']
        = Inr out \<and>
      keywordEntries out = Some top \<and>
      targetEntry ''We sell bras'' '' Sel'' \<in> set (mockKeywords st) \<and>
      (represented '' Sel'' top \<or>
       (length top = 15 \<and>
        16 \<le> countAtLeast (kw_relevance (targetEntry ''We sell bras'' '' Sel''))
                (mockKeywords st))))"
proof -
  have h: "'' Sel'' \<in> set [''shoes'', '' Sel''] \<and>
      includesStr (toLowerCase ''We sell bras'') (trim (toLowerCase '' Sel''))"
    using sel_in_content by simp
  show ?thesis
    using h C1_matching_keyword_represented [of "'' Sel''" "[''shoes'', '' Sel'']"
        "''We sell bras''" sampleResults]
    by blast
qed

section \<open>The tiers of checkKeywordStatus\<close>

subsection \<open>Substrings and trimming\<close>









subsection \<open>The guard, then the chain of rules\<close>

text \<open>
  With the helper predicates total, \<open>checkKeywordStatus\<close> always returns a tier: the
  pattern of rule 1 compiles for every keyword, metacharacters included. It returns
  \<open>Missing\<close> as soon as the result is absent, the result has no keyword list, or the
  keyword is empty; otherwise rule 1 is tried, then the chain on the keyword list.
\<close>

lemma checkKeywordStatus_present:
  assumes "keyword \<noteq> []" and "keywordEntries r = Some ks"
  shows "checkKeywordStatus u keyword (Some r) =
     Inr (if domainRuleFires keyword r then Exact
          else structuredStatus u keyword (trim (toLowerCase keyword)) ks (entities r))"
  using assms
  by (simp add: checkKeywordStatus_def domainRuleFires_def newRegExp_escapeRegExp Let_def)

lemma checkKeywordStatus_missing:
  "resultsToUse = None \<or> (\<exists>r. resultsToUse = Some r \<and> keywordEntries r = None) \<or> keyword = []
     \<Longrightarrow> checkKeywordStatus u keyword resultsToUse = Inr Missing"
  by (auto simp: checkKeywordStatus_def split: option.splits)

lemma checkKeywordStatus_returns: "\<exists>tier. checkKeywordStatus u keyword resultsToUse = Inr tier"
proof (cases "resultsToUse = None \<or> (\<exists>r. resultsToUse = Some r \<and> keywordEntries r = None)
    \<or> keyword = []")
  case True
  then show ?thesis using checkKeywordStatus_missing by blast
next
  case False
  then obtain r ks where "resultsToUse = Some r" "keywordEntries r = Some ks" "keyword \<noteq> []"
    by auto
  then show ?thesis by (simp add: checkKeywordStatus_present)
qed








lemma percent_never_exact:
  "checkKeywordStatus u ''bras 100%'' (Some percentResults) \<noteq> Inr Exact"
proof -
  have k: "keywordEntries percentResults = Some []" "entities percentResults = None"
    by (simp_all add: percentResults_def)
  have "\<not> domainRuleFires ''bras 100%'' percentResults" by code_simp
  then show ?thesis
    by (simp add: checkKeywordStatus_present [OF _ k(1)] k(2) structuredStatus_def
        substringMatch_def)
qed




text \<open>
  C4, as stated, fails in two ways, both through the guard. For the empty keyword and a
  result with an empty keyword list and an entity "bra", no rule from 1 to 5 fires and the
  entity's text contains the keyword, yet the answer is \<open>Missing\<close>. For the keyword "bra"
  and a result with the entity "bra" and no field \<open>keywords\<close>, the answer is
  \<open>Missing\<close> as well.
\<close>

theorem C4_guard_counterexample:
  "\<not> earlierRuleFires specKeywordUtils [] (entityResults ''bra'') \<and>
   entities (entityResults ''bra'') = Some [braEntity ''bra''] \<and>
   entityMatch (trim (toLowerCase [])) [braEntity ''bra''] \<and>
   checkKeywordStatus specKeywordUtils [] (Some (entityResults ''bra'')) = Inr Missing \<and>
   \<not> earlierRuleFires specKeywordUtils ''bra'' entityOnlyResults \<and>
   entities entityOnlyResults = Some [braEntity ''bra''] \<and>
   entityMatch (trim (toLowerCase ''bra'')) [braEntity ''bra''] \<and>
   checkKeywordStatus specKeywordUtils ''bra'' (Some entityOnlyResults) = Inr Missing"
  by code_simp

text \<open>
  C4, amended. For every non-empty keyword and every result with a keyword list on which
  none of the rules 1 to 5 fires: if the lower-cased text of some entity contains the
  lower-cased, trimmed keyword or is contained in it, the answer is \<open>Exact\<close>. The same
  two-way containment against the trimmed, lower-cased text of a keyword entry, when
  the rules 1 to 3 do not fire, gives \<open>Partial\<close>, and \<open>Exact\<close> ranks strictly above
  \<open>Partial\<close>.
\<close>

theorem C4_entity_fallback_exact:
  "(kw \<noteq> [] \<and> keywordEntries r = Some ks \<and> \<not> earlierRuleFires u kw r \<and>
    entities r = Some es \<and> entityMatch (trim (toLowerCase kw)) es
      \<longrightarrow> checkKeywordStatus u kw (Some r) = Inr Exact) \<and>
   (kw \<noteq> [] \<and> keywordEntries r = Some ks \<and> \<not> domainRuleFires kw r \<and>
    \<not> structuredRuleFires u kw ks \<and> substringMatch (trim (toLowerCase kw)) ks
      \<longrightarrow> checkKeywordStatus u kw (Some r) = Inr Partial) \<and>
   tierRank Partial < tierRank Exact"
proof (intro conjI impI)
  assume h: "kw \<noteq> [] \<and> keywordEntries r = Some ks \<and> \<not> earlierRuleFires u kw r \<and>
    entities r = Some es \<and> entityMatch (trim (toLowerCase kw)) es"
  then have "es \<noteq> []" by (auto simp: entityMatch_def)
  with h have "structuredStatus u kw (trim (toLowerCase kw)) ks (entities r) = Exact"
    by (auto simp: structuredStatus_def earlierRuleFires_def structuredRuleFires_def)
  moreover have "\<not> domainRuleFires kw r" using h by (simp add: earlierRuleFires_def)
  ultimately show "checkKeywordStatus u kw (Some r) = Inr Exact"
    using h by (simp add: checkKeywordStatus_present)
next
  assume h: "kw \<noteq> [] \<and> keywordEntries r = Some ks \<and> \<not> domainRuleFires kw r \<and>
    \<not> structuredRuleFires u kw ks \<and> substringMatch (trim (toLowerCase kw)) ks"
  then have "structuredStatus u kw (trim (toLowerCase kw)) ks (entities r) = Partial"
    by (simp add: structuredStatus_def structuredRuleFires_def)
  then show "checkKeywordStatus u kw (Some r) = Inr Partial"
    using h by (simp add: checkKeywordStatus_present)
next
  show "tierRank Partial < tierRank Exact" by simp
qed

lemma sports_bra_eval:
  "\<not> earlierRuleFires specKeywordUtils ''sports bra'' (entityResults ''bra'') \<and>
   entityMatch (trim (toLowerCase ''sports bra'')) [braEntity ''bra'']"
  by code_simp

lemma top_eval:
  "\<not> domainRuleFires ''top'' keywordResults \<and>
   \<not> structuredRuleFires specKeywordUtils ''top''
       [\<lparr>kw_text = ''laptop'', kw_relevance = 9 / 10, kw_count = 1\<rparr>] \<and>
   substringMatch (trim (toLowerCase ''top''))
     [\<lparr>kw_text = ''laptop'', kw_relevance = 9 / 10, kw_count = 1\<rparr>]"
  by code_simp

theorem C4_entity_fallback_exact_witness:
  "\<not> earlierRuleFires specKeywordUtils ''sports bra'' (entityResults ''bra'') \<and>
   entityMatch (trim (toLowerCase ''sports bra'')) [braEntity ''bra''] \<and>
   checkKeywordStatus specKeywordUtils ''sports bra'' (Some (entityResults ''bra'')) = Inr Exact \<and>
   \<not> domainRuleFires ''top'' keywordResults \<and>
   \<not> structuredRuleFires specKeywordUtils ''top''
       [\<lparr>kw_text = ''laptop'', kw_relevance = 9 / 10, kw_count = 1\<rparr>] \<and>
   substringMatch (trim (toLowerCase ''top''))
     [\<lparr>kw_text = ''laptop'', kw_relevance = 9 / 10, kw_count = 1\<rparr>] \<and>
   checkKeywordStatus specKeywordUtils ''top'' (Some keywordResults) = Inr Partial"
proof -
  have h1: "''sports bra'' \<noteq> [] \<and> keywordEntries (entityResults ''bra'') = Some [] \<and>
      \<not> earlierRuleFires specKeywordUtils ''sports bra'' (entityResults ''bra'') \<and>
      entities (entityResults ''bra'') = Some [braEntity ''bra''] \<and>
      entityMatch (trim (toLowerCase ''sports bra'')) [braEntity ''bra'']"
    using sports_bra_eval by (simp add: entityResults_def)
  have h2: "''top'' \<noteq> [] \<and>
      keywordEntries keywordResults
        = Some [\<lparr>kw_text = ''laptop'', kw_relevance = 9 / 10, kw_count = 1\<rparr>] \<and>
      \<not> domainRuleFires ''top'' keywordResults \<and>
      \<not> structuredRuleFires specKeywordUtils ''top''
          [\<lparr>kw_text = ''laptop'', kw_relevance = 9 / 10, kw_count = 1\<rparr>] \<and>
      substringMatch (trim (toLowerCase ''top''))
        [\<lparr>kw_text = ''laptop'', kw_relevance = 9 / 10, kw_count = 1\<rparr>]"
    using top_eval by (simp add: keywordResults_def)
  show ?thesis
    using h1 h2
      C4_entity_fallback_exact [of "''sports bra''" "entityResults ''bra''" "[]"
        specKeywordUtils "[braEntity ''bra'']"]
      C4_entity_fallback_exact [of "''top''" keywordResults
        "[\<lparr>kw_text = ''laptop'', kw_relevance = 9 / 10, kw_count = 1\<rparr>]" specKeywordUtils]
    by blast
qed

subsection \<open>Entity texts are not trimmed\<close>

lemma untrimmed_entity_eval:
  "\<not> domainRuleFires ''sports bra'' (entityResults ''bra '') \<and>
   \<not> domainRuleFires ''sports bra'' (entityResults ''bra'') \<and>
   \<not> entityMatch (trim (toLowerCase ''sports bra'')) [braEntity ''bra ''] \<and>
   entityMatch (trim (toLowerCase ''sports bra'')) [braEntity ''bra''] \<and>
   trimEntityTexts (entityResults ''bra '') = entityResults ''bra''"
  by code_simp

lemma entity_text_untrimmed_any_utils:
  assumes "\<not> isKeywordInTopPositions u ''sports bra'' [] 10"
  shows "checkKeywordStatus u ''sports bra'' (Some (entityResults ''bra '')) = Inr Missing"
    and "checkKeywordStatus u ''sports bra'' (Some (trimEntityTexts (entityResults ''bra '')))
           = Inr Exact"
proof -
  have k: "keywordEntries (entityResults t) = Some []"
    "entities (entityResults t) = Some [braEntity t]" for t
    by (simp_all add: entityResults_def)
  show "checkKeywordStatus u ''sports bra'' (Some (entityResults ''bra '')) = Inr Missing"
    using assms untrimmed_entity_eval
    by (simp add: checkKeywordStatus_present [OF _ k(1)] k(2) structuredStatus_def
        substringMatch_def)
  have "checkKeywordStatus u ''sports bra'' (Some (entityResults ''bra'')) = Inr Exact"
    using assms untrimmed_entity_eval
    by (simp add: checkKeywordStatus_present [OF _ k(1)] k(2) structuredStatus_def
        substringMatch_def)
  then show "checkKeywordStatus u ''sports bra''
      (Some (trimEntityTexts (entityResults ''bra ''))) = Inr Exact"
    using untrimmed_entity_eval by simp
qed

text \<open>
  C5. The comparison against entities lower-cases the entity's text and does not trim it,
  while the comparison against keyword entries trims. For the keyword "sports bra" and a
  result with no keyword entry and the one entity "bra " (a trailing space),
  \<open>checkKeywordStatus\<close> answers \<open>Missing\<close>; with the entity's text trimmed to "bra" it
  answers \<open>Exact\<close>. The preceding lemma shows the same for every choice of the helper
  predicates that finds nothing in the top positions of an empty list.
\<close>

theorem C5_entity_text_not_trimmed:
  "checkKeywordStatus specKeywordUtils ''sports bra'' (Some (entityResults ''bra ''))
     = Inr Missing \<and>
   trimEntityTexts (entityResults ''bra '') = entityResults ''bra'' \<and>
   checkKeywordStatus specKeywordUtils ''sports bra''
     (Some (trimEntityTexts (entityResults ''bra ''))) = Inr Exact"
  by code_simp

subsection \<open>An absent source result\<close>

lemma mock_present_returns:
  "\<exists>out. mockAnalysisForKeywords (Some r) c kws = Inr out \<and>
     (entities r = None \<longrightarrow>
        (\<exists>st. candidates c kws = Inr st \<and> entities out = Some (mockEntities st)))"
proof -
  obtain st where st: "candidates c kws = Inr st"
    using candidates_returns by blast
  show ?thesis
    using st mock_present [OF st, of r] by simp
qed

text \<open>
  C6. \<open>checkKeywordStatus\<close> returns a tier on every input and \<open>Missing\<close> on an absent
  result, an absent keyword list or an empty keyword (the lemmas
  \<open>checkKeywordStatus_returns\<close> and \<open>checkKeywordStatus_missing\<close>), and
  \<open>mockAnalysisForKeywords\<close> returns for every present source result, taking absent
  entities as none (\<open>mock_present_returns\<close>). With an absent source result, however,
  \<open>mockAnalysisForKeywords\<close> raises: the spread \<open>{ ...results }\<close> accepts it, the loops
  run, and reading \<open>results.entities\<close> is a \<open>TypeError\<close>, for every content and every list of
  target keywords.
\<close>

theorem C6_absent_results_type_error:
  "mockAnalysisForKeywords None c kws = Inl TypeError"
  using candidates_returns [of c kws] by (auto simp: mockAnalysisForKeywords_def)

end
